theory Spec2Isabelle
  imports Main
begin

section \<open>ProTeX: a shallow embedding of \<^verbatim>\<open>protex.py\<close>\<close>

text \<open>
  The program reads annotated source files line by line and prints a LaTeX document.
  Here a Python \<^verbatim>\<open>str\<close> is a \<^typ>\<open>string\<close> (one \<^typ>\<open>char\<close> per
  character; the alphabet is the code points below 256), the mutable dictionary
  \<^verbatim>\<open>state\<close> is a record that every function takes and returns, and the standard
  output is the list of the arguments of the \<^verbatim>\<open>print\<close> calls in the order they
  are made (each call writes its argument and a line feed).
\<close>

subsection \<open>Python string operations\<close>

abbreviation bslash :: char where
  "bslash \<equiv> CHR 0x5C"

abbreviation newline :: char where
  "newline \<equiv> CHR 0x0A"

text \<open>\<^verbatim>\<open>str.isspace\<close> on the code points below 256.\<close>

definition is_space :: "char \<Rightarrow> bool" where
  "is_space c \<longleftrightarrow> c \<in> set [CHR 0x09, CHR 0x0A, CHR 0x0B, CHR 0x0C, CHR 0x0D,
     CHR 0x1C, CHR 0x1D, CHR 0x1E, CHR 0x1F, CHR 0x20, CHR 0x85, CHR 0xA0]"

text \<open>\<^verbatim>\<open>s.lstrip()\<close> and \<^verbatim>\<open>s.rstrip("\n")\<close>.\<close>

definition lstrip :: "string \<Rightarrow> string" where
  "lstrip s = dropWhile is_space s"

definition rstrip_nl :: "string \<Rightarrow> string" where
  "rstrip_nl s = rev (dropWhile (\<lambda>c. c = newline) (rev s))"

text \<open>
  \<^verbatim>\<open>s.split(maxsplit=n)\<close>: at most \<open>n\<close> splits at runs of whitespace; what is
  left after the \<open>n\<close>-th split is one last field, its leading whitespace removed and
  its trailing whitespace kept.
\<close>

fun split_ws :: "nat \<Rightarrow> string \<Rightarrow> string list" where
  "split_ws 0 s = (let r = dropWhile is_space s in if r = [] then [] else [r])"
| "split_ws (Suc m) s =
     (let r = dropWhile is_space s
      in if r = [] then []
         else takeWhile (\<lambda>c. \<not> is_space c) r # split_ws m (dropWhile (\<lambda>c. \<not> is_space c) r))"

text \<open>\<^verbatim>\<open>s.split()\<close>: no bound on the number of splits.\<close>

function split_all :: "string \<Rightarrow> string list" where
  "split_all s =
     (let r = dropWhile is_space s
      in if r = [] then []
         else takeWhile (\<lambda>c. \<not> is_space c) r # split_all (dropWhile (\<lambda>c. \<not> is_space c) r))"
  by pat_completeness auto
termination
proof (relation "measure length")
  show "wf (measure length)" by simp
next
  fix s r :: string
  assume r: "r = dropWhile is_space s" and ne: "r \<noteq> []"
  from ne obtain c cs where rc: "r = c # cs" by (cases r) auto
  from r rc have "dropWhile is_space s = c # cs" by simp
  then have "\<not> is_space c" by (simp add: dropWhile_eq_Cons_conv)
  then have "dropWhile (\<lambda>c. \<not> is_space c) r = dropWhile (\<lambda>c. \<not> is_space c) cs"
    using rc by simp
  then have "length (dropWhile (\<lambda>c. \<not> is_space c) r) \<le> length cs"
    by (simp add: length_dropWhile_le)
  also have "length cs < length r" using rc by simp
  also have "length r \<le> length s" using r by (simp add: length_dropWhile_le)
  finally show "(dropWhile (\<lambda>c. \<not> is_space c) r, s) \<in> measure length" by simp
qed

declare split_all.simps [simp del]

text \<open>\<^verbatim>\<open>" ".join(xs)\<close>.\<close>

fun join_sp :: "string list \<Rightarrow> string" where
  "join_sp [] = []"
| "join_sp [x] = x"
| "join_sp (x # y # ys) = x @ '' '' @ join_sp (y # ys)"

text \<open>\<^verbatim>\<open>s.replace("_", "\\_")\<close>.\<close>

definition escape_underscores :: "string \<Rightarrow> string" where
  "escape_underscores s = concat (map (\<lambda>c. if c = CHR ''_'' then [bslash, CHR ''_''] else [c]) s)"

text \<open>\<^verbatim>\<open>s.startswith(p)\<close> and \<^verbatim>\<open>x in s\<close> (substring test).\<close>

definition startswith :: "string \<Rightarrow> string \<Rightarrow> bool" where
  "startswith s p \<longleftrightarrow> take (length p) s = p"

fun str_in :: "string \<Rightarrow> string \<Rightarrow> bool" where
  "str_in x [] = (x = [])"
| "str_in x (c # cs) = (startswith (c # cs) x \<or> str_in x cs)"

text \<open>\<^verbatim>\<open>os.path.basename(p)\<close> (POSIX): what follows the last slash.\<close>

definition basename :: "string \<Rightarrow> string" where
  "basename p = rev (takeWhile (\<lambda>c. c \<noteq> CHR ''/'') (rev p))"

subsection \<open>Tokens, options and the document state\<close>

text \<open>One entry of \<^verbatim>\<open>language_tokens\<close> (lines 550--603).\<close>

record tokens =
  comment :: string
  bop :: string
  eop :: string
  boi :: string
  eoi :: string
  bopi :: string
  eopi :: string
  boc :: string
  eoc :: string
  boe :: string
  eoe :: string

text \<open>
  The \<^verbatim>\<open>argparse\<close> namespace (lines 515--538). The fields carry the prefix
  \<open>opt_\<close> because the one-letter names of the source would capture the variables
  of every term.
\<close>

record opts =
  opt_files :: "string list"
  opt_bare :: bool
  opt_A :: bool
  opt_C :: bool
  opt_F :: bool
  opt_S :: bool
  opt_n :: bool
  opt_l :: bool
  opt_s :: bool
  opt_nolatex :: bool
  opt_f :: bool
  opt_internal :: bool
  opt_keys :: "string list"
  opt_style :: "string option"

text \<open>The dictionary \<^verbatim>\<open>state\<close> (lines 610--628).\<close>

record doc_state =
  intro :: bool
  prologue :: bool
  first :: bool
  source :: bool
  verb :: bool
  tpage :: bool
  begdoc :: bool
  not_first :: bool
  have_name :: bool
  have_desc :: bool
  have_intf :: bool
  have_hist :: bool
  name_is :: string
  title :: string
  author :: string
  affiliation :: string
  doc_date :: string

definition init_state :: doc_state where
  "init_state = \<lparr> intro = False, prologue = False, first = True, source = False,
     verb = False, tpage = False, begdoc = False, not_first = False,
     have_name = False, have_desc = False, have_intf = False, have_hist = False,
     name_is = ''UNKNOWN'', title = '''', author = '''', affiliation = '''',
     doc_date = '''' \<rparr>"

text \<open>The default of \<^verbatim>\<open>--keys\<close> (lines 527--536).\<close>

definition default_keys :: "string list" where
  "default_keys = [''!INTERFACE:'', ''!USES:'', ''!PUBLIC TYPES:'', ''!PRIVATE TYPES:'',
     ''!PUBLIC MEMBER FUNCTIONS:'', ''!PRIVATE MEMBER FUNCTIONS:'',
     ''!PUBLIC DATA MEMBERS:'', ''!PARAMETERS:'', ''!ARGUMENTS:'',
     ''!DEFINED PARAMETERS:'', ''!INPUT PARAMETERS:'', ''!INPUT/OUTPUT PARAMETERS:'',
     ''!OUTPUT PARAMETERS:'', ''!RETURN VALUE:'', ''!REVISION HISTORY:'',
     ''!BUGS:'', ''!SEE ALSO:'', ''!SYSTEM ROUTINES:'', ''!FILES USED:'',
     ''!REMARKS:'', ''!TO DO:'', ''!CALLING SEQUENCE:'', ''!AUTHOR:'',
     ''!CALLED FROM:'', ''!LOCAL VARIABLES:'']"

text \<open>The options with every flag off, no file and the default keys.\<close>

definition default_opts :: opts where
  "default_opts = \<lparr> opt_files = [], opt_bare = False, opt_A = False, opt_C = False,
     opt_F = False, opt_S = False, opt_n = False, opt_l = False, opt_s = False,
     opt_nolatex = False, opt_f = False, opt_internal = False,
     opt_keys = default_keys, opt_style = None \<rparr>"

text \<open>
  The languages \<^verbatim>\<open>'F'\<close>, \<^verbatim>\<open>'A'\<close>, \<^verbatim>\<open>'C'\<close>, \<^verbatim>\<open>'S'\<close> and their tokens.
\<close>

datatype lang = Fortran | Ada | Cxx | Shell

fun language_tokens :: "lang \<Rightarrow> tokens" where
  "language_tokens Fortran = \<lparr> comment = ''!'', bop = ''!BOP'', eop = ''!EOP'',
     boi = ''!BOI'', eoi = ''!EOI'', bopi = ''!BOPI'', eopi = ''!EOPI'', boc = ''!BOC'',
     eoc = ''!EOC'', boe = ''!BOE'', eoe = ''!EOE'' \<rparr>"
| "language_tokens Ada = \<lparr> comment = ''--'', bop = ''--BOP'', eop = ''--EOP'',
     boi = ''--BOI'', eoi = ''--EOI'', bopi = ''--BOPI'', eopi = ''--EOPI'', boc = ''--BOC'',
     eoc = ''--EOC'', boe = ''--BOE'', eoe = ''--EOE'' \<rparr>"
| "language_tokens Cxx = \<lparr> comment = ''//'', bop = ''//BOP'', eop = ''//EOP'',
     boi = ''//BOI'', eoi = ''//EOI'', bopi = ''//BOPI'', eopi = ''//EOPI'', boc = ''//BOC'',
     eoc = ''//EOC'', boe = ''//BOE'', eoe = ''//EOE'' \<rparr>"
| "language_tokens Shell = \<lparr> comment = ''#'', bop = ''#BOP'', eop = ''#EOP'',
     boi = ''#BOI'', eoi = ''#EOI'', bopi = ''#BOPI'', eopi = ''#EOPI'', boc = ''#BOC'',
     eoc = ''#EOC'', boe = ''#BOE'', eoe = ''#EOE'' \<rparr>"

text \<open>Lines 542--548: Fortran unless \<^verbatim>\<open>-A\<close>, else \<^verbatim>\<open>-C\<close>, else \<^verbatim>\<open>-S\<close>.\<close>

definition select_lang :: "opts \<Rightarrow> lang" where
  "select_lang op = (if opt_A op then Ada else if opt_C op then Cxx
                     else if opt_S op then Shell else Fortran)"

subsection \<open>The lines the engine prints\<close>

definition begin_verbatim :: string where
  "begin_verbatim = bslash # ''begin{verbatim}''"

definition end_verbatim :: string where
  "end_verbatim = bslash # ''end{verbatim}''"

definition separator :: string where
  "separator = newline # '' %/////////////////////////////////////////////////////////////''"

definition hrule :: string where
  "hrule = newline # bslash # ''mbox{}'' @ bslash # ''hrulefill'' @ [bslash]"

definition prologue_banner :: string where
  "prologue_banner = bslash # ''section{Routine/Function Prologues} '' @ bslash # ''label{app:ProLogues}''"

definition newpage :: string where
  "newpage = bslash # ''newpage''"

definition eof_separator :: string where
  "eof_separator = ''%...............................................................''"

definition markboth :: "string \<Rightarrow> string \<Rightarrow> string" where
  "markboth file_basename file_date =
     newline # bslash # ''markboth{Left}{Source File: '' @ file_basename @ '',  Date: ''
       @ file_date @ ''}'' @ [newline]"

subsection \<open>\<^verbatim>\<open>do_beg\<close>, \<^verbatim>\<open>do_eoc\<close>, \<^verbatim>\<open>set_missing\<close>\<close>

definition do_beg :: "doc_state \<Rightarrow> bool \<Rightarrow> string list \<times> doc_state" where
  "do_beg st bare =
     (if bare then ([], st)
      else if \<not> begdoc st then
        ((if tpage st then
            [bslash # ''title{'' @ title st @ ''}'',
             bslash # ''author{{'' @ bslash # ''sc '' @ author st @ ''}'' @ bslash # bslash # '' {''
               @ bslash # ''em '' @ affiliation st @ ''}}'',
             bslash # ''date{'' @ doc_date st @ ''}'']
          else [])
         @ [bslash # ''begin{document}'']
         @ (if tpage st then [bslash # ''maketitle''] else [])
         @ [bslash # ''tableofcontents'', newpage],
         st\<lparr>begdoc := True\<rparr>)
      else ([], st))"

definition do_eoc :: "doc_state \<Rightarrow> string list \<times> doc_state" where
  "do_eoc st =
     (let (out, st1) = (if verb st then ([end_verbatim], st\<lparr>verb := False\<rparr>) else ([], st))
      in (out, st1\<lparr>source := False\<rparr>))"

definition set_missing :: "doc_state \<Rightarrow> doc_state" where
  "set_missing st = st\<lparr>have_name := False, have_desc := False, have_intf := False,
     have_hist := False, name_is := ''UNKNOWN''\<rparr>"

subsection \<open>The body of the loop of \<^verbatim>\<open>process_file\<close> (lines 253--493)\<close>

text \<open>Lines 257--259: the marker is the second field when the first is a lone \<^verbatim>\<open>!\<close>.\<close>

definition marker_index :: "string list \<Rightarrow> nat" where
  "marker_index flds = (if flds \<noteq> [] \<and> hd flds = ''!'' then 1 else 0)"

text \<open>
  \<^verbatim>\<open>if mi == 1: fields.pop(0)\<close> followed by \<^verbatim>\<open>fields.pop(0)\<close>. Every use is
  behind the test \<^verbatim>\<open>len(fields) > mi\<close> of line 262, so no \<^verbatim>\<open>pop\<close> meets an
  empty list.
\<close>

definition pop_marker :: "nat \<Rightarrow> string list \<Rightarrow> string list" where
  "pop_marker mi flds = tl (if mi = 1 then tl flds else flds)"

text \<open>
  Lines 276--314, the introduction data. The result is \<open>None\<close> when no branch ends in
  \<^verbatim>\<open>continue\<close> and the line goes on to the rules below.
\<close>

definition intro_fields ::
  "opts \<Rightarrow> string list \<Rightarrow> nat \<Rightarrow> doc_state \<Rightarrow> (string list \<times> doc_state) option" where
  "intro_fields op flds mi st =
     (if intro st \<and> length flds > mi + 1 then
        (let marker = flds ! (mi + 1)
         in if marker = ''!TITLE:'' then
              Some ([], st\<lparr>title := join_sp (pop_marker mi flds), tpage := True\<rparr>)
            else if marker = ''!AUTHORS:'' then
              Some ([], st\<lparr>author := join_sp (pop_marker mi flds), tpage := True\<rparr>)
            else if marker = ''!AFFILIATION:'' then
              Some ([], st\<lparr>affiliation := join_sp (pop_marker mi flds), tpage := True\<rparr>)
            else if marker = ''!DATE:'' then
              Some ([], st\<lparr>doc_date := join_sp (pop_marker mi flds), tpage := True\<rparr>)
            else if marker = ''!INTRODUCTION:'' then
              (let (o1, st1) = do_beg st (opt_bare op)
               in Some (o1 @ ['' %..............................................'',
                               bslash # ''section{'' @ join_sp (pop_marker mi flds) @ ''}''],
                        st1))
            else None)
      else None)"

text \<open>Lines 323--336, the body of the \<^verbatim>\<open>!BOP\<close> branch.\<close>

definition bop_rule :: "opts \<Rightarrow> doc_state \<Rightarrow> string list \<times> doc_state" where
  "bop_rule op st =
     (let (o1, st1) = (if source st then do_eoc st else ([], st));
          (o2, st2) = do_beg st1 (opt_bare op);
          o3 = (if \<not> first st2 then [hrule]
                else if \<not> opt_bare op then [prologue_banner] else [])
      in (o1 @ [separator] @ o2 @ o3,
          set_missing (st2\<lparr>first := False, prologue := True, verb := False, source := False\<rparr>)))"

text \<open>Lines 341--357, the body of the \<^verbatim>\<open>!BOPI\<close> branch, which the source writes out again.\<close>

definition bopi_rule :: "opts \<Rightarrow> doc_state \<Rightarrow> string list \<times> doc_state" where
  "bopi_rule op st =
     (if opt_internal op then ([], st\<lparr>prologue := False\<rparr>)
      else
        (let (o1, st1) = (if source st then do_eoc st else ([], st));
             (o2, st2) = do_beg st1 (opt_bare op);
             o3 = (if \<not> first st2 then [hrule]
                   else if \<not> opt_bare op then [prologue_banner] else [])
         in (o1 @ [separator] @ o2 @ o3,
             set_missing (st2\<lparr>first := False, prologue := True, verb := False, source := False\<rparr>))))"

text \<open>The words of line 433.\<close>

definition argument_words :: "string list" where
  "argument_words = [''USES'', ''INPUT'', ''OUTPUT'', ''PARAMETERS'', ''VALUE'', ''ARGUMENTS'']"

text \<open>
  Lines 424--442, the optional keyword markers: the loop over \<^verbatim>\<open>opts.keys\<close> stops at
  the first key that occurs in the line.
\<close>

definition keyword_section :: "opts \<Rightarrow> string \<Rightarrow> doc_state \<Rightarrow> (string list \<times> doc_state) option" where
  "keyword_section op line st =
     (case find (\<lambda>key. str_in key line) (opt_keys op) of
        None \<Rightarrow> None
      | Some key \<Rightarrow>
          (let (o1, st1) = (if verb st then ([end_verbatim], st\<lparr>verb := False\<rparr>)
                            else ([newline # bslash # ''bigskip''], st));
               label = drop 1 key;
               o2 = (if list_ex (\<lambda>x. str_in x line) argument_words
                     then ''{'' @ bslash # ''em '' @ label @ ''}''
                     else ''{'' @ bslash # ''sf '' @ label @ ''}'')
           in Some (o1 @ [o2, begin_verbatim], st1\<lparr>verb := True\<rparr>)))"

text \<open>
  Lines 406--420, the body of the \<^verbatim>\<open>!DESCRIPTION:\<close> branch. \<^verbatim>\<open>parts[0]\<close> exists
  there: the line has a field, so \<^verbatim>\<open>line.split()\<close> is not empty.
\<close>

definition description_rule :: "opts \<Rightarrow> string \<Rightarrow> doc_state \<Rightarrow> string list \<times> doc_state" where
  "description_rule op line st =
     (let (o1, st1) = (if verb st
                       then ([end_verbatim,
                              ''{'' @ bslash # ''sf DESCRIPTION:'' @ bslash # bslash # '' }'',
                              ''''], st\<lparr>verb := False\<rparr>)
                       else ([], st));
          (o2, st2) = (if opt_nolatex op then ([begin_verbatim], st1\<lparr>verb := True\<rparr>)
                       else (let parts = split_all line;
                                 start = (if take 1 parts = [''!''] then 1 else 0)
                             in ([join_sp (drop (start + 1) parts)], st1)))
      in (o1 @ o2, st2\<lparr>have_desc := True\<rparr>))"

text \<open>
  Lines 360--442, the rules that need \<^verbatim>\<open>state["prologue"]\<close>; \<open>None\<close> when none of
  them ends in \<^verbatim>\<open>continue\<close>.
\<close>

definition prologue_rules ::
  "opts \<Rightarrow> string \<Rightarrow> string \<Rightarrow> string list \<Rightarrow> nat \<Rightarrow> doc_state
     \<Rightarrow> (string list \<times> doc_state) option" where
  "prologue_rules op file_basename line flds mi st =
     (if prologue st \<and> flds ! mi = ''!MODULE:'' then
        (let module_name = escape_underscores (join_sp (pop_marker mi flds))
         in Some ((if opt_n op then [newpage] else [])
                  @ [if \<not> opt_f op
                     then bslash # ''subsection{Fortran:  Module Interface '' @ module_name
                            @ '' (Source File: '' @ file_basename @ '')}'' @ [newline]
                     else bslash # ''subsection{Fortran:  Module Interface '' @ module_name
                            @ ''}'' @ [newline]],
                  st\<lparr>have_name := True, have_intf := True, not_first := True\<rparr>))
      else if prologue st \<and> flds ! mi = ''!ROUTINE:'' then
        (let routine_name = escape_underscores (join_sp (pop_marker mi flds))
         in Some ((if opt_n op \<and> not_first st then [newpage] else [])
                  @ [if \<not> opt_f op
                     then bslash # ''subsubsection{'' @ routine_name
                            @ '' (Source File: '' @ file_basename @ '')}'' @ [newline]
                     else bslash # ''subsubsection{'' @ routine_name @ ''}'' @ [newline]],
                  st\<lparr>have_name := True, not_first := True\<rparr>))
      else if prologue st \<and> flds ! mi = ''!IROUTINE:'' then
        (let routine_name = escape_underscores (join_sp (pop_marker mi flds));
             words = split_all routine_name;
             label = (if length words > 1 then words ! 1 else '''')
         in Some ([bslash # ''subsubsection ['' @ label @ '']{'' @ routine_name @ ''}'' @ [newline]],
                  st\<lparr>have_name := True\<rparr>))
      else if prologue st \<and> str_in ''!DESCRIPTION:'' line then
        Some (description_rule op line st)
      else if prologue st then keyword_section op line st
      else None)"

text \<open>Lines 444--493: the closing markers, the code and example blocks, the fallbacks.\<close>

definition closing_rules ::
  "tokens \<Rightarrow> string \<Rightarrow> string list \<Rightarrow> nat \<Rightarrow> doc_state \<Rightarrow> string list \<times> doc_state" where
  "closing_rules tk line flds mi st =
     (if flds ! mi = eop tk \<or> flds ! mi = eopi tk then
        (let (o1, st1) = (if verb st then ([end_verbatim], st\<lparr>verb := False\<rparr>) else ([], st))
         in (o1, st1\<lparr>prologue := False\<rparr>))
      else if flds ! mi = boc tk then
        ([separator, newline # begin_verbatim],
         st\<lparr>first := False, prologue := False, source := True, verb := True\<rparr>)
      else if flds ! mi = eoc tk then
        (let (o1, st1) = do_eoc st in (o1, st1\<lparr>prologue := False\<rparr>))
      else if flds ! mi = boe tk then
        (let (o1, st1) = (if source st then do_eoc st else ([], st))
         in (o1 @ [separator],
             st1\<lparr>first := False, prologue := True, verb := False, source := False\<rparr>))
      else if flds ! mi = eoe tk then
        (let (o1, st1) = (if verb st then ([end_verbatim], st\<lparr>verb := False\<rparr>) else ([], st))
         in (o1, st1\<lparr>prologue := False\<rparr>))
      else if prologue st \<or> intro st then
        ([if startswith line (comment tk) then drop (length (comment tk)) line else line], st)
      else if source st then ([line], st)
      else ([], st))"

text \<open>
  One turn of the loop: the output of the line and the state after it. The rules are
  tried in the order of the source, and the first that applies ends the turn.
\<close>

definition process_line ::
  "tokens \<Rightarrow> opts \<Rightarrow> string \<Rightarrow> string \<Rightarrow> doc_state \<Rightarrow> string list \<times> doc_state" where
  "process_line tk op file_basename raw st =
     (let line = lstrip (rstrip_nl raw);
          flds = split_ws 9999 line;
          mi = marker_index flds
      in if length flds \<le> mi then ([], st)
         else if flds ! mi = ''!QUOTE:'' then ([join_sp (drop (mi + 1) flds)], st)
         else if flds ! mi = boi tk then ([], st\<lparr>intro := True\<rparr>)
         else
           (case intro_fields op flds mi st of
              Some r \<Rightarrow> r
            | None \<Rightarrow>
                if flds ! mi = eoi tk then ([separator, newpage], st\<lparr>intro := False\<rparr>)
                else if flds ! mi = bop tk then bop_rule op st
                else if flds ! mi = bopi tk then bopi_rule op st
                else
                  (case prologue_rules op file_basename line flds mi st of
                     Some r \<Rightarrow> r
                   | None \<Rightarrow> closing_rules tk line flds mi st)))"

fun process_lines ::
  "tokens \<Rightarrow> opts \<Rightarrow> string \<Rightarrow> string list \<Rightarrow> doc_state \<Rightarrow> string list \<times> doc_state" where
  "process_lines tk op file_basename [] st = ([], st)"
| "process_lines tk op file_basename (raw # rest) st =
     (let (o1, st1) = process_line tk op file_basename raw st;
          (o2, st2) = process_lines tk op file_basename rest st1
      in (o1 @ o2, st2))"

subsection \<open>\<^verbatim>\<open>process_file\<close> and \<^verbatim>\<open>main\<close>\<close>

text \<open>
  \<^verbatim>\<open>process_file(f, filename, state, tokens, opts)\<close>. The file \<open>f\<close> is the list of
  the lines that iterating over it yields; \<open>now\<close> is the text that
  \<^verbatim>\<open>datetime.now().strftime(...)\<close> returns at line 250, the one value the function
  reads from outside its arguments. The constant \<open>file_basename\<close> is the value that
  lines 248--249 give the variable of that name.
\<close>

definition file_basename :: "string \<Rightarrow> string" where
  "file_basename filename =
     escape_underscores (if filename \<noteq> ''-'' then basename filename else ''Standard Input'')"

definition process_file ::
  "string \<Rightarrow> string list \<Rightarrow> string \<Rightarrow> doc_state \<Rightarrow> tokens \<Rightarrow> opts \<Rightarrow> string list \<times> doc_state" where
  "process_file now f filename st tk op =
     (let fb = file_basename filename;
          (body, st1) = process_lines tk op fb f st;
          (closing, st2) = (if source st1 then do_eoc st1 else ([], st1))
      in (markboth fb now # body @ [''''] @ closing @ [eof_separator], st2))"

text \<open>
  The text on the standard output, line by line: every \<^verbatim>\<open>print\<close> writes its
  argument, which may hold line feeds of its own, and ends the line.
\<close>

fun split_nl :: "string \<Rightarrow> string list" where
  "split_nl [] = [[]]"
| "split_nl (c # cs) =
     (if c = newline then [] # split_nl cs
      else (case split_nl cs of [] \<Rightarrow> [[c]] | l # ls \<Rightarrow> (c # l) # ls))"

definition output_lines :: "string list \<Rightarrow> string list" where
  "output_lines out = concat (map split_nl out)"

text \<open>\<^verbatim>\<open>print_notice\<close>, \<^verbatim>\<open>print_preamble\<close> and \<^verbatim>\<open>print_macros\<close> (lines 78--162).\<close>

definition print_notice :: "string list" where
  "print_notice =
     [''%                **** IMPORTANT NOTICE *****'',
      ''% This LaTeX file was automatically generated by ProTeX (Python version)'',
      ''% Any changes made to this file will likely be lost next time'',
      ''% it is regenerated from its source. Send questions to your_email@example.com'' @ [newline]]"

definition print_preamble :: "string option \<Rightarrow> string list" where
  "print_preamble custom_style =
     [''%------------------------ PREAMBLE --------------------------'']
     @ (case custom_style of
          None \<Rightarrow> [bslash # ''documentclass[11pt]{article}'']
        | Some sty \<Rightarrow>
            if sty \<noteq> [] then [bslash # ''documentclass[11pt]{'' @ sty @ ''}'']
            else [bslash # ''documentclass[11pt]{article}''])
     @ [bslash # ''usepackage{amsmath}'']
     @ (case custom_style of
          None \<Rightarrow> []
        | Some sty \<Rightarrow> if sty \<noteq> [] then [bslash # ''usepackage{'' @ sty @ ''}''] else [])
     @ [bslash # ''textheight     9in'',
        bslash # ''topmargin      0pt'',
        bslash # ''headsep        1cm'',
        bslash # ''headheight     0pt'',
        bslash # ''textwidth      6in'',
        bslash # ''oddsidemargin  0in'',
        bslash # ''evensidemargin 0in'',
        bslash # ''marginparpush  0pt'',
        bslash # ''pagestyle{myheadings}'',
        bslash # ''markboth{}{}'',
        ''%-------------------------------------------------------------'',
        bslash # ''setlength{'' @ bslash # ''parskip}{0pt}'',
        bslash # ''setlength{'' @ bslash # ''parindent}{0pt}'',
        bslash # ''setlength{'' @ bslash # ''baselineskip}{11pt}'']"

definition print_macros :: "string list" where
  "print_macros =
     [newline # ''%--------------------- SHORT-HAND MACROS ----------------------'',
      bslash # ''def'' @ bslash # ''bv{'' @ bslash # ''begin{verbatim}}'',
      bslash # ''def'' @ bslash # ''ev{'' @ bslash # ''end{verbatim}}'',
      bslash # ''def'' @ bslash # ''be{'' @ bslash # ''begin{equation}}'',
      bslash # ''def'' @ bslash # ''ee{'' @ bslash # ''end{equation}}'',
      bslash # ''def'' @ bslash # ''bea{'' @ bslash # ''begin{eqnarray}}'',
      bslash # ''def'' @ bslash # ''eea{'' @ bslash # ''end{eqnarray}}'',
      bslash # ''def'' @ bslash # ''bi{'' @ bslash # ''begin{itemize}}'',
      bslash # ''def'' @ bslash # ''ei{'' @ bslash # ''end{itemize}}'',
      bslash # ''def'' @ bslash # ''bn{'' @ bslash # ''begin{enumerate}}'',
      bslash # ''def'' @ bslash # ''en{'' @ bslash # ''end{enumerate}}'',
      bslash # ''def'' @ bslash # ''bd{'' @ bslash # ''begin{description}}'',
      bslash # ''def'' @ bslash # ''ed{'' @ bslash # ''end{description}}'',
      bslash # ''def'' @ bslash # ''({'' @ bslash # ''left (}'',
      bslash # ''def'' @ bslash # ''){'' @ bslash # ''right )}'',
      bslash # ''def'' @ bslash # ''[{'' @ bslash # ''left [}'',
      bslash # ''def'' @ bslash # '']{'' @ bslash # ''right ]}'',
      bslash # ''def'' @ bslash # ''<{'' @ bslash # ''left '' @ bslash # ''langle}'',
      bslash # ''def'' @ bslash # ''>{'' @ bslash # ''right '' @ bslash # ''rangle}'',
      bslash # ''def'' @ bslash # ''cI{{'' @ bslash # ''cal I}}'',
      bslash # ''def'' @ bslash # ''diag{'' @ bslash # ''mathop{'' @ bslash # ''rm diag}}'',
      bslash # ''def'' @ bslash # ''tr{'' @ bslash # ''mathop{'' @ bslash # ''rm tr}}'',
      ''%-------------------------------------------------------------'']"

text \<open>
  The loop over the files (lines 637--642). \<open>clock k\<close> is the time text that the
  \<open>k\<close>-th call of \<^verbatim>\<open>process_file\<close> reads, \<open>fsys\<close> maps the name of every
  file that can be opened to its lines, and \<open>stdin\<close> holds the lines still unread on the
  standard input, which the first file named \<^verbatim>\<open>-\<close> or \<^verbatim>\<open>''\<close> reads to its end.
  A file that cannot be opened raises in \<^verbatim>\<open>open\<close>: the run stops there with what it
  has printed.
\<close>

datatype error = OpenFailed string

fun process_files ::
  "(nat \<Rightarrow> string) \<Rightarrow> (string \<Rightarrow> string list option) \<Rightarrow> tokens \<Rightarrow> opts \<Rightarrow> nat
     \<Rightarrow> string list \<Rightarrow> string list \<Rightarrow> doc_state \<Rightarrow> string list \<times> error option" where
  "process_files clock fsys tk op k [] stdin st = ([], None)"
| "process_files clock fsys tk op k (filename # rest) stdin st =
     (if filename = ''-'' \<or> filename = '''' then
        (let (o1, st1) = process_file (clock k) stdin filename st tk op;
             (o2, e) = process_files clock fsys tk op (Suc k) rest [] st1
         in (o1 @ o2, e))
      else
        (case fsys filename of
           None \<Rightarrow> ([], Some (OpenFailed filename))
         | Some f \<Rightarrow>
             (let (o1, st1) = process_file (clock k) f filename st tk op;
                  (o2, e) = process_files clock fsys tk op (Suc k) rest stdin st1
              in (o1 @ o2, e))))"

text \<open>
  \<^verbatim>\<open>main\<close> after the parsing of the command line (lines 541--645): the output and
  the error that ended the run, if any.
\<close>

definition main ::
  "(nat \<Rightarrow> string) \<Rightarrow> (string \<Rightarrow> string list option) \<Rightarrow> string list \<Rightarrow> opts
     \<Rightarrow> string list \<times> error option" where
  "main clock fsys stdin op =
     (let tk = language_tokens (select_lang op);
          files = (if opt_files op \<noteq> [] then opt_files op else [''-'']);
          (body, e) = process_files clock fsys tk op 0 files stdin init_state
      in (print_notice
          @ (if \<not> opt_bare op then print_preamble (opt_style op) else [])
          @ print_macros
          @ body
          @ (case e of
               None \<Rightarrow> if \<not> opt_bare op then [bslash # ''end{document}''] else []
             | Some _ \<Rightarrow> []),
          e))"

subsection \<open>How a line is read\<close>

text \<open>
  Names for what lines 254--263 compute from a raw line: its fields, the field at the
  marker index (\<open>None\<close> for a line the loop skips), and the fields after the marker.
\<close>

definition line_fields :: "string \<Rightarrow> string list" where
  "line_fields raw = split_ws 9999 (lstrip (rstrip_nl raw))"

definition marker_field :: "string \<Rightarrow> string option" where
  "marker_field raw =
     (let flds = line_fields raw; mi = marker_index flds
      in if length flds \<le> mi then None else Some (flds ! mi))"

definition remainder_fields :: "string \<Rightarrow> string list" where
  "remainder_fields raw = (let flds = line_fields raw in drop (marker_index flds + 1) flds)"

text \<open>
  The introduction data rule (lines 276--314) takes the line: it is tried before every
  prologue, code and example rule, whatever the marker field is.
\<close>

definition intro_data_line :: "opts \<Rightarrow> string \<Rightarrow> doc_state \<Rightarrow> bool" where
  "intro_data_line op raw st \<longleftrightarrow>
     intro_fields op (line_fields raw) (marker_index (line_fields raw)) st \<noteq> None"

section \<open>Properties\<close>

subsection \<open>Reading a line\<close>

lemma split_ws_numeral:
  "split_ws (numeral k) s =
     (let r = dropWhile is_space s
      in if r = [] then []
         else takeWhile (\<lambda>c. \<not> is_space c) r
              # split_ws (pred_numeral k) (dropWhile (\<lambda>c. \<not> is_space c) r))"
  by (simp add: numeral_eq_Suc)

text \<open>The facts that evaluate the reading of a concrete line.\<close>

lemmas line_defs = line_fields_def marker_field_def remainder_fields_def
  lstrip_def rstrip_nl_def marker_index_def is_space_def split_ws_numeral Let_def

lemma marker_index_le_1: "marker_index flds \<le> 1"
  by (simp add: marker_index_def)

lemma pop_marker_drop: "pop_marker (marker_index flds) flds = drop (marker_index flds + 1) flds"
proof (cases "marker_index flds = 1")
  case True
  then show ?thesis by (simp add: pop_marker_def drop_Suc tl_drop)
next
  case False
  then have "marker_index flds = 0" using marker_index_le_1 [of flds] by arith
  then show ?thesis by (simp add: pop_marker_def drop_Suc)
qed

text \<open>
  Each of the first 9999 fields of a line is free of whitespace; only a 10000th field,
  the unsplit rest of the line, can hold some.
\<close>

lemma split_ws_field_no_space:
  "i < length (split_ws n s) \<Longrightarrow> i < n \<Longrightarrow> \<forall>c \<in> set (split_ws n s ! i). \<not> is_space c"
proof (induction n arbitrary: s i)
  case 0
  then show ?case by simp
next
  case (Suc n)
  note prems = Suc.prems and IH = Suc.IH
  define r where "r = dropWhile is_space s"
  define w where "w = takeWhile (\<lambda>c. \<not> is_space c) r"
  define t where "t = dropWhile (\<lambda>c. \<not> is_space c) r"
  have unfold: "split_ws (Suc n) s = (if r = [] then [] else w # split_ws n t)"
    by (simp only: split_ws.simps Let_def r_def w_def t_def)
  from prems(1) have ne: "r \<noteq> []"
    unfolding unfold by (cases "r = []") simp_all
  with unfold have eq: "split_ws (Suc n) s = w # split_ws n t"
    by simp
  show ?case
  proof (cases i)
    case 0
    have "\<forall>c \<in> set w. \<not> is_space c"
      unfolding w_def by (auto dest: set_takeWhileD)
    with 0 eq show ?thesis by simp
  next
    case (Suc j)
    with prems eq have "j < length (split_ws n t)" and "j < n"
      by simp_all
    from IH [OF this] Suc eq show ?thesis by simp
  qed
qed

lemma split_all_Nil: "split_all [] = []"
  by (simp add: split_all.simps [of "[]"])

lemma split_all_no_space:
  assumes "\<forall>c \<in> set w. \<not> is_space c"
  shows "split_all w = (if w = [] then [] else [w])"
proof (cases "w = []")
  case True
  then show ?thesis by (simp add: split_all_Nil)
next
  case False
  from assms have d: "dropWhile is_space w = w"
    by (cases w) auto
  from assms have t: "takeWhile (\<lambda>c. \<not> is_space c) w = w"
    by simp
  from assms have e: "dropWhile (\<lambda>c. \<not> is_space c) w = []"
    by simp
  from False show ?thesis
    by (simp add: split_all.simps [of w] d t e split_all_Nil)
qed

lemma escape_underscores_no_space:
  "\<forall>c \<in> set w. \<not> is_space c \<Longrightarrow> \<forall>c \<in> set (escape_underscores w). \<not> is_space c"
  by (auto simp: escape_underscores_def is_space_def split: if_splits)

text \<open>
  The \<^verbatim>\<open>!DESCRIPTION:\<close> branch reads \<^verbatim>\<open>parts[0]\<close>: a line with a field has a
  first part.
\<close>

lemma split_all_nonempty: "split_ws n s \<noteq> [] \<Longrightarrow> split_all s \<noteq> []"
  by (cases n) (auto simp: split_all.simps [of s] Let_def split: if_splits)

subsection \<open>The tokens of the four languages\<close>

lemma language_tokens_distinct:
  assumes "tk = language_tokens lg"
  shows "bop tk \<noteq> ''!QUOTE:''" "bop tk \<noteq> boi tk" "bop tk \<noteq> eoi tk"
    "bopi tk \<noteq> ''!QUOTE:''" "bopi tk \<noteq> boi tk" "bopi tk \<noteq> eoi tk" "bopi tk \<noteq> bop tk"
    "boi tk \<noteq> ''!QUOTE:''" "eoi tk \<noteq> ''!QUOTE:''"
  using assms by (cases lg; simp)+

lemma language_tokens_not_marker:
  assumes "tk = language_tokens lg"
    and "m = ''!MODULE:'' \<or> m = ''!ROUTINE:'' \<or> m = ''!IROUTINE:''"
  shows "m \<noteq> boi tk" "m \<noteq> eoi tk" "m \<noteq> bop tk" "m \<noteq> bopi tk"
  using assms by (cases lg; auto)+

subsection \<open>The order of the rules\<close>

text \<open>
  \<^const>\<open>process_line\<close> in terms of the marker field: which rule takes a line that is not
  skipped.
\<close>

lemma process_line_dispatch:
  assumes "marker_field raw = Some m"
  shows "process_line tk op fb raw st =
     (if m = ''!QUOTE:'' then ([join_sp (remainder_fields raw)], st)
      else if m = boi tk then ([], st\<lparr>intro := True\<rparr>)
      else
        (case intro_fields op (line_fields raw) (marker_index (line_fields raw)) st of
           Some r \<Rightarrow> r
         | None \<Rightarrow>
             if m = eoi tk then ([separator, newpage], st\<lparr>intro := False\<rparr>)
             else if m = bop tk then bop_rule op st
             else if m = bopi tk then bopi_rule op st
             else
               (case prologue_rules op fb (lstrip (rstrip_nl raw)) (line_fields raw)
                       (marker_index (line_fields raw)) st of
                  Some r \<Rightarrow> r
                | None \<Rightarrow> closing_rules tk (lstrip (rstrip_nl raw)) (line_fields raw)
                            (marker_index (line_fields raw)) st)))"
proof -
  define flds where "flds = line_fields raw"
  define mi where "mi = marker_index flds"
  from assms have len: "\<not> length flds \<le> mi" and m: "flds ! mi = m"
    by (auto simp: marker_field_def Let_def flds_def mi_def split: if_splits)
  have f: "split_ws 9999 (lstrip (rstrip_nl raw)) = flds"
    by (simp add: flds_def line_fields_def)
  show ?thesis
    unfolding process_line_def remainder_fields_def Let_def f flds_def [symmetric] mi_def [symmetric]
    by (simp only: len m if_False)
qed

text \<open>A line with no field at the marker index is skipped.\<close>

lemma process_line_skip:
  assumes "marker_field raw = None"
  shows "process_line tk op fb raw st = ([], st)"
proof -
  from assms have "length (line_fields raw) \<le> marker_index (line_fields raw)"
    by (simp add: marker_field_def Let_def split: if_splits)
  then show ?thesis
    by (simp add: process_line_def Let_def line_fields_def)
qed

subsection \<open>Quote passthrough\<close>

text \<open>
  Claim C6, as the code has it. A line whose marker field is \<^verbatim>\<open>!QUOTE:\<close> prints, in
  every state and with every token table and option, the fields that follow the marker
  joined by single blanks, and leaves the state as it is; no other rule is tried before.
  The line is quoted word by word, not byte by byte: runs of whitespace between the words
  become one blank, and whitespace at the end of the line is dropped.
\<close>

theorem quote_passthrough:
  assumes "marker_field raw = Some ''!QUOTE:''"
  shows "process_line tk op fb raw st = ([join_sp (remainder_fields raw)], st)"
  using process_line_dispatch [OF assms, of tk op fb st] by simp

theorem quote_passthrough_witness:
  "marker_field ''   ! !QUOTE:  x_1   =  2  '' = Some ''!QUOTE:'' \<and>
   process_line (language_tokens Cxx) default_opts ''a.C'' ''   ! !QUOTE:  x_1   =  2  ''
     (init_state\<lparr>source := True, verb := True\<rparr>)
   = ([''x_1 = 2''], init_state\<lparr>source := True, verb := True\<rparr>)"
proof -
  have m: "marker_field ''   ! !QUOTE:  x_1   =  2  '' = Some ''!QUOTE:''"
    by (simp add: line_defs)
  have r: "remainder_fields ''   ! !QUOTE:  x_1   =  2  '' = [''x_1'', ''='', ''2'']"
    by (simp add: line_defs)
  show ?thesis
    using quote_passthrough [OF m, of "language_tokens Cxx" default_opts "''a.C''"
        "init_state\<lparr>source := True, verb := True\<rparr>"] m
    by (simp add: r)
qed

text \<open>
  Claim C6 as stated fails: the rest of the line \<^verbatim>\<open>!QUOTE: a  b\<close> is \<^verbatim>\<open>a  b\<close>
  with two blanks, and the line printed has one.
\<close>

theorem quote_not_bytewise_counterexample:
  "fst (process_line (language_tokens Fortran) default_opts ''a.f90'' ''!QUOTE: a  b'' init_state)
     = [''a b''] \<and>
   fst (process_line (language_tokens Fortran) default_opts ''a.f90'' ''!QUOTE: a  b'' init_state)
     \<noteq> [''a  b'']"
  by (simp add: line_defs process_line_def)

subsection \<open>Opening a prologue\<close>

text \<open>The facts that evaluate the rules on a concrete line.\<close>

lemmas rule_defs = intro_fields_def bop_rule_def bopi_rule_def prologue_rules_def
  keyword_section_def description_rule_def closing_rules_def do_beg_def do_eoc_def
  set_missing_def pop_marker_def startswith_def escape_underscores_def argument_words_def

lemma intro_fields_None:
  "\<not> intro_data_line op raw st \<Longrightarrow>
     intro_fields op (line_fields raw) (marker_index (line_fields raw)) st = None"
  by (simp only: intro_data_line_def not_not)

text \<open>What the \<^verbatim>\<open>!BOP\<close> branch prints and the state it leaves.\<close>

lemma bop_rule_eq:
  "bop_rule op st =
     ((if source st \<and> verb st then [end_verbatim] else [])
        @ [separator]
        @ fst (do_beg st (opt_bare op))
        @ (if \<not> first st then [hrule]
           else if \<not> opt_bare op then [prologue_banner] else []),
      st\<lparr>begdoc := begdoc st \<or> \<not> opt_bare op, first := False, prologue := True,
         verb := False, source := False, have_name := False, have_desc := False,
         have_intf := False, have_hist := False, name_is := ''UNKNOWN''\<rparr>)"
  by (cases st) (simp add: bop_rule_def do_eoc_def do_beg_def set_missing_def)

text \<open>The \<^verbatim>\<open>!BOPI\<close> branch repeats the \<^verbatim>\<open>!BOP\<close> branch when internal mode is off.\<close>

lemma bopi_rule_eq:
  "bopi_rule op st = (if opt_internal op then ([], st\<lparr>prologue := False\<rparr>) else bop_rule op st)"
  by (simp add: bopi_rule_def bop_rule_def)

lemma process_line_bop:
  assumes "tk = language_tokens lg" and "marker_field raw = Some (bop tk)"
    and "\<not> intro_data_line op raw st"
  shows "process_line tk op fb raw st = bop_rule op st"
  using process_line_dispatch [OF assms(2), of tk op fb st]
    language_tokens_distinct [OF assms(1)] intro_fields_None [OF assms(3)]
  by simp

lemma process_line_bopi:
  assumes "tk = language_tokens lg" and "marker_field raw = Some (bopi tk)"
    and "\<not> intro_data_line op raw st"
  shows "process_line tk op fb raw st = bopi_rule op st"
  using process_line_dispatch [OF assms(2), of tk op fb st]
    language_tokens_distinct [OF assms(1)] intro_fields_None [OF assms(3)]
  by simp

text \<open>No rule sets the flag \<^verbatim>\<open>first\<close>: once clear it stays clear, in this file and after.\<close>

lemma intro_fields_first:
  "intro_fields op flds mi st = Some r \<Longrightarrow> first (snd r) = first st"
  by (auto simp: intro_fields_def do_beg_def Let_def split: if_splits)

lemma prologue_rules_first:
  "prologue_rules op fb line flds mi st = Some r \<Longrightarrow> first (snd r) = first st"
  by (auto simp: prologue_rules_def keyword_section_def description_rule_def Let_def
      split: if_splits option.splits)

lemma closing_rules_first:
  "\<not> first st \<Longrightarrow> \<not> first (snd (closing_rules tk line flds mi st))"
  by (simp add: closing_rules_def do_eoc_def Let_def)

lemma process_line_first:
  assumes "\<not> first st"
  shows "\<not> first (snd (process_line tk op fb raw st))"
proof (cases "marker_field raw")
  case None
  with assms show ?thesis by (simp add: process_line_skip)
next
  case (Some m)
  show ?thesis
  proof (cases "intro_fields op (line_fields raw) (marker_index (line_fields raw)) st")
    case i: (Some r)
    from intro_fields_first [OF i] assms i show ?thesis
      by (simp add: process_line_dispatch [OF Some])
  next
    case i: None
    show ?thesis
    proof (cases "prologue_rules op fb (lstrip (rstrip_nl raw)) (line_fields raw)
                    (marker_index (line_fields raw)) st")
      case p: (Some r)
      from prologue_rules_first [OF p] assms i p show ?thesis
        by (simp add: process_line_dispatch [OF Some] bop_rule_eq bopi_rule_eq)
    next
      case p: None
      from closing_rules_first [OF assms] assms i p show ?thesis
        by (simp add: process_line_dispatch [OF Some] bop_rule_eq bopi_rule_eq)
    qed
  qed
qed

lemma process_lines_first:
  "\<not> first st \<Longrightarrow> \<not> first (snd (process_lines tk op fb f st))"
proof (induction f arbitrary: st)
  case Nil
  then show ?case by simp
next
  case (Cons raw rest)
  from Cons.prems have "\<not> first (snd (process_line tk op fb raw st))"
    by (rule process_line_first)
  from Cons.IH [OF this] show ?case
    by (simp add: split_beta)
qed

lemma process_file_first:
  assumes "\<not> first st"
  shows "\<not> first (snd (process_file now f filename st tk op))"
  using process_lines_first [OF assms]
  by (simp add: process_file_def Let_def split_beta do_eoc_def)

text \<open>
  Claim C4, as the code has it. At a line that the \<^verbatim>\<open>!BOP\<close> rule takes (its marker
  field is the prologue-open token of the language and the introduction data rule does
  not take it first): an open code block is closed first, with \<^verbatim>\<open>\end{verbatim}\<close> when
  the verbatim flag is set; the separator is printed; \<^verbatim>\<open>do_beg\<close> is called, and
  it prints nothing when called again after this line; while the flag \<^verbatim>\<open>first\<close> is
  still set the section banner with the label \<^verbatim>\<open>app:ProLogues\<close> is printed unless
  bare mode is on, in which case nothing is printed in its place, and once the flag is
  clear the horizontal rule is printed; the four \<^verbatim>\<open>have_\<close> flags are cleared and
  the captured name is reset. The flag \<^verbatim>\<open>first\<close> is set when the run starts, this
  rule clears it and no line of this or a later file sets it again, so the banner is
  printed at most once in a run and every later prologue gets the horizontal rule.
\<close>

theorem prologue_open:
  assumes "tk = language_tokens lg" and "marker_field raw = Some (bop tk)"
    and "\<not> intro_data_line op raw st"
  shows "process_line tk op fb raw st =
     ((if source st \<and> verb st then [end_verbatim] else [])
        @ [separator]
        @ fst (do_beg st (opt_bare op))
        @ (if \<not> first st then [hrule]
           else if \<not> opt_bare op then [prologue_banner] else []),
      st\<lparr>begdoc := begdoc st \<or> \<not> opt_bare op, first := False, prologue := True,
         verb := False, source := False, have_name := False, have_desc := False,
         have_intf := False, have_hist := False, name_is := ''UNKNOWN''\<rparr>)
   \<and> fst (do_beg (snd (process_line tk op fb raw st)) (opt_bare op)) = []
   \<and> first init_state
   \<and> (\<not> first st' \<longrightarrow> \<not> first (snd (process_line tk op fb raw' st')))
   \<and> (\<not> first st' \<longrightarrow> \<not> first (snd (process_file now f filename st' tk op)))"
  using process_line_first [of st' tk op fb raw'] process_file_first [of st' now f filename tk op]
  by (simp add: process_line_bop [OF assms] bop_rule_eq do_beg_def init_state_def)

theorem prologue_open_witness:
  "marker_field ''! !BOP'' = Some (bop (language_tokens Fortran)) \<and>
   \<not> intro_data_line default_opts ''! !BOP'' (init_state\<lparr>source := True, verb := True\<rparr>) \<and>
   process_line (language_tokens Fortran) default_opts ''a.f90'' ''! !BOP''
     (init_state\<lparr>source := True, verb := True\<rparr>)
   = ([end_verbatim, separator, bslash # ''begin{document}'', bslash # ''tableofcontents'',
       newpage, prologue_banner],
      init_state\<lparr>begdoc := True, first := False, prologue := True\<rparr>) \<and>
   \<not> first (init_state\<lparr>first := False\<rparr>) \<and>
   \<not> first (snd (process_line (language_tokens Fortran) default_opts ''a.f90'' ''!EOP''
                  (init_state\<lparr>first := False\<rparr>))) \<and>
   \<not> first (snd (process_file ''2026-11-06 10:00:00'' [''!BOP'', ''!EOP''] ''b.f90''
                  (init_state\<lparr>first := False\<rparr>) (language_tokens Fortran) default_opts))"
proof -
  have m: "marker_field ''! !BOP'' = Some (bop (language_tokens Fortran))"
    by (simp add: line_defs)
  have i: "\<not> intro_data_line default_opts ''! !BOP'' (init_state\<lparr>source := True, verb := True\<rparr>)"
    by (simp add: intro_data_line_def intro_fields_def init_state_def)
  show ?thesis
    using prologue_open [where fb = "''a.f90''" and raw' = "''!EOP''"
        and st' = "init_state\<lparr>first := False\<rparr>" and now = "''2026-11-06 10:00:00''"
        and f = "[''!BOP'', ''!EOP'']" and filename = "''b.f90''", OF refl m i] m i
    by (simp add: do_beg_def init_state_def default_opts_def)
qed

text \<open>
  Claim C4 as stated fails in bare mode: the first prologue of the run prints the
  separator and no banner.
\<close>

theorem prologue_open_bare_counterexample:
  "first init_state \<and>
   fst (process_line (language_tokens Fortran) (default_opts\<lparr>opt_bare := True\<rparr>) ''a.f90''
          ''!BOP'' init_state) = [separator] \<and>
   prologue_banner \<notin> set (fst (process_line (language_tokens Fortran)
          (default_opts\<lparr>opt_bare := True\<rparr>) ''a.f90'' ''!BOP'' init_state))"
  by (simp add: process_line_def line_defs rule_defs init_state_def default_opts_def
      separator_def prologue_banner_def)

text \<open>
  Claim C5. A line that the \<^verbatim>\<open>!BOPI\<close> rule takes, in any state: with internal mode
  off it prints what a line that the \<^verbatim>\<open>!BOP\<close> rule takes prints in that state and
  leaves the same state; with internal mode on it prints nothing and leaves the state
  with the prologue flag off and nothing else changed.
\<close>

theorem internal_prologue_open:
  assumes "tk = language_tokens lg"
    and "marker_field raw_i = Some (bopi tk)" and "\<not> intro_data_line op raw_i st"
    and "marker_field raw_o = Some (bop tk)" and "\<not> intro_data_line op raw_o st"
  shows "process_line tk op fb raw_i st =
     (if opt_internal op then ([], st\<lparr>prologue := False\<rparr>)
      else process_line tk op fb raw_o st)"
  by (simp add: process_line_bopi [OF assms(1,2,3)] process_line_bop [OF assms(1,4,5)]
      bopi_rule_eq)

theorem internal_prologue_open_witness:
  "marker_field ''!BOPI'' = Some (bopi (language_tokens Fortran)) \<and>
   marker_field ''! !BOP  Rest'' = Some (bop (language_tokens Fortran)) \<and>
   \<not> intro_data_line default_opts ''!BOPI'' (init_state\<lparr>prologue := True\<rparr>) \<and>
   \<not> intro_data_line default_opts ''! !BOP  Rest'' (init_state\<lparr>prologue := True\<rparr>) \<and>
   process_line (language_tokens Fortran) default_opts ''a.f90'' ''!BOPI''
     (init_state\<lparr>prologue := True\<rparr>)
   = process_line (language_tokens Fortran) default_opts ''a.f90'' ''! !BOP  Rest''
     (init_state\<lparr>prologue := True\<rparr>) \<and>
   process_line (language_tokens Fortran) (default_opts\<lparr>opt_internal := True\<rparr>) ''a.f90''
     ''!BOPI'' (init_state\<lparr>prologue := True\<rparr>)
   = ([], init_state\<lparr>prologue := False\<rparr>)"
proof -
  let ?st = "init_state\<lparr>prologue := True\<rparr>"
  have mi: "marker_field ''!BOPI'' = Some (bopi (language_tokens Fortran))"
    and mo: "marker_field ''! !BOP  Rest'' = Some (bop (language_tokens Fortran))"
    by (simp_all add: line_defs)
  have ni: "\<not> intro_data_line op ''!BOPI'' ?st" and no: "\<not> intro_data_line op ''! !BOP  Rest'' ?st"
    for op
    by (simp_all add: intro_data_line_def intro_fields_def init_state_def)
  show ?thesis
    using internal_prologue_open [OF refl mi ni mo no, of default_opts "''a.f90''"]
      internal_prologue_open [OF refl mi ni mo no, of "default_opts\<lparr>opt_internal := True\<rparr>" "''a.f90''"]
      mi mo ni no
    by (simp add: default_opts_def)
qed

subsection \<open>Routine name markers\<close>

lemma process_line_prologue_rules:
  assumes "tk = language_tokens lg" and "marker_field raw = Some m"
    and "m = ''!MODULE:'' \<or> m = ''!ROUTINE:'' \<or> m = ''!IROUTINE:''"
    and "\<not> intro_data_line op raw st" and "prologue st"
  shows "process_line tk op fb raw st =
     the (prologue_rules op fb (lstrip (rstrip_nl raw)) (line_fields raw)
            (marker_index (line_fields raw)) st)"
proof -
  from assms(2) have m: "line_fields raw ! marker_index (line_fields raw) = m"
    by (auto simp: marker_field_def Let_def split: if_splits)
  from assms(3) have q: "m \<noteq> ''!QUOTE:''" by auto
  from assms(3,5) m
  have "prologue_rules op fb (lstrip (rstrip_nl raw)) (line_fields raw)
          (marker_index (line_fields raw)) st \<noteq> None"
    by (auto simp: prologue_rules_def Let_def)
  then show ?thesis
    using process_line_dispatch [OF assms(2), of tk op fb st]
      language_tokens_not_marker [OF assms(1,3)] intro_fields_None [OF assms(4)] q
    by auto
qed

text \<open>Which lines set the flag \<^verbatim>\<open>not_first\<close>: the rules one by one.\<close>

lemma intro_fields_not_first:
  "intro_fields op flds mi st = Some r \<Longrightarrow> not_first (snd r) = not_first st"
  by (auto simp: intro_fields_def do_beg_def Let_def split: if_splits)

lemma bop_rule_not_first: "not_first (snd (bop_rule op st)) = not_first st"
  by (simp add: bop_rule_eq)

lemma bopi_rule_not_first: "not_first (snd (bopi_rule op st)) = not_first st"
  by (simp add: bopi_rule_eq bop_rule_eq)

lemma keyword_section_not_first:
  "keyword_section op line st = Some r \<Longrightarrow> not_first (snd r) = not_first st"
  by (auto simp: keyword_section_def Let_def split: option.splits if_splits)

lemma description_rule_not_first:
  "not_first (snd (description_rule op line st)) = not_first st"
  by (simp add: description_rule_def Let_def)

lemma prologue_rules_not_first:
  "prologue_rules op fb line flds mi st = Some r \<Longrightarrow>
     not_first (snd r) =
       (not_first st \<or> prologue st \<and> (flds ! mi = ''!MODULE:'' \<or> flds ! mi = ''!ROUTINE:''))"
  by (auto simp: prologue_rules_def Let_def description_rule_not_first
      dest: keyword_section_not_first split: if_splits)

lemma closing_rules_not_first:
  "not_first (snd (closing_rules tk line flds mi st)) = not_first st"
  by (simp add: closing_rules_def do_eoc_def Let_def)

lemma process_line_not_first:
  assumes "tk = language_tokens lg"
  shows "not_first (snd (process_line tk op fb raw st)) =
     (not_first st \<or>
      prologue st \<and> \<not> intro_data_line op raw st \<and>
      (marker_field raw = Some ''!MODULE:'' \<or> marker_field raw = Some ''!ROUTINE:''))"
proof (cases "marker_field raw")
  case None
  then show ?thesis by (simp add: process_line_skip)
next
  case (Some m)
  let ?flds = "line_fields raw"
  let ?mi = "marker_index ?flds"
  from Some have m: "?flds ! ?mi = m"
    by (auto simp: marker_field_def Let_def split: if_splits)
  show ?thesis
  proof (cases "intro_fields op ?flds ?mi st")
    case (Some r)
    then have i: "intro_data_line op raw st" by (simp add: intro_data_line_def)
    from Some have "not_first (snd r) = not_first st" by (rule intro_fields_not_first)
    with Some i \<open>marker_field raw = Some m\<close> show ?thesis
      by (simp add: process_line_dispatch [OF \<open>marker_field raw = Some m\<close>])
  next
    case None
    then have i: "\<not> intro_data_line op raw st" by (simp add: intro_data_line_def)
    show ?thesis
    proof (cases "m = ''!MODULE:'' \<or> m = ''!ROUTINE:''")
      case True
      then have mm: "m = ''!MODULE:'' \<or> m = ''!ROUTINE:'' \<or> m = ''!IROUTINE:''" by auto
      from True have q: "m \<noteq> ''!QUOTE:''" by auto
      show ?thesis
      proof (cases "prologue_rules op fb (lstrip (rstrip_nl raw)) ?flds ?mi st")
        case (Some r)
        from prologue_rules_not_first [OF Some] m True Some None i q
          language_tokens_not_marker [OF assms mm] \<open>marker_field raw = Some m\<close>
        show ?thesis
          by (simp add: process_line_dispatch [OF \<open>marker_field raw = Some m\<close>])
      next
        case no: None
        with True m have "\<not> prologue st"
          by (auto simp: prologue_rules_def Let_def split: if_splits)
        with no None i q language_tokens_not_marker [OF assms mm] \<open>marker_field raw = Some m\<close>
        show ?thesis
          by (simp add: process_line_dispatch [OF \<open>marker_field raw = Some m\<close>]
              closing_rules_not_first)
      qed
    next
      case False
      have "not_first (snd (process_line tk op fb raw st)) = not_first st"
      proof (cases "prologue_rules op fb (lstrip (rstrip_nl raw)) ?flds ?mi st")
        case (Some r)
        from prologue_rules_not_first [OF Some] m False
        have "not_first (snd r) = not_first st" by simp
        with Some None show ?thesis
          by (simp add: process_line_dispatch [OF \<open>marker_field raw = Some m\<close>]
              bop_rule_not_first bopi_rule_not_first)
      next
        case no: None
        with None show ?thesis
          by (simp add: process_line_dispatch [OF \<open>marker_field raw = Some m\<close>]
              bop_rule_not_first bopi_rule_not_first closing_rules_not_first)
      qed
      with False \<open>marker_field raw = Some m\<close> show ?thesis by auto
    qed
  qed
qed

lemma process_lines_not_first:
  "tk = language_tokens lg \<Longrightarrow> not_first st \<Longrightarrow>
     not_first (snd (process_lines tk op fb f st))"
proof (induction f arbitrary: st)
  case Nil
  then show ?case by simp
next
  case (Cons raw rest)
  from Cons.prems have "not_first (snd (process_line tk op fb raw st))"
    by (simp add: process_line_not_first)
  from Cons.IH [OF Cons.prems(1) this] show ?case
    by (simp add: split_beta)
qed

lemma process_file_not_first:
  assumes "tk = language_tokens lg" and "not_first st"
  shows "not_first (snd (process_file now f filename st tk op))"
  using process_lines_not_first [OF assms]
  by (simp add: process_file_def Let_def split_beta do_eoc_def)

text \<open>
  Claim C7, as the code has it. At a line that the \<^verbatim>\<open>!ROUTINE:\<close> rule takes in
  prologue mode, the page break is printed exactly when the new-page option is on and the
  flag \<^verbatim>\<open>not_first\<close> is set, and the line sets the flag. The flag belongs to the run,
  not to the file: it is unset when the run starts, a line sets it exactly when the
  \<^verbatim>\<open>!MODULE:\<close> or the \<^verbatim>\<open>!ROUTINE:\<close> rule takes it, and once set it stays set
  to the end of the file and so into every later file. So the page break is left out at
  the first module or routine name of the whole run only.
\<close>

theorem routine_page_break:
  assumes "tk = language_tokens lg"
    and "marker_field raw = Some ''!ROUTINE:''" and "\<not> intro_data_line op raw st"
    and "prologue st"
  shows "process_line tk op fb raw st =
     ((if opt_n op \<and> not_first st then [newpage] else [])
      @ [if \<not> opt_f op
         then bslash # ''subsubsection{'' @ escape_underscores (join_sp (remainder_fields raw))
                @ '' (Source File: '' @ fb @ '')}'' @ [newline]
         else bslash # ''subsubsection{'' @ escape_underscores (join_sp (remainder_fields raw))
                @ ''}'' @ [newline]],
      st\<lparr>have_name := True, not_first := True\<rparr>)
   \<and> \<not> not_first init_state
   \<and> not_first (snd (process_line tk op fb raw' st')) =
       (not_first st' \<or>
        prologue st' \<and> \<not> intro_data_line op raw' st' \<and>
        (marker_field raw' = Some ''!MODULE:'' \<or> marker_field raw' = Some ''!ROUTINE:''))
   \<and> (not_first st'' \<longrightarrow> not_first (snd (process_file now f filename st'' tk op)))"
proof -
  from assms(2) have m: "line_fields raw ! marker_index (line_fields raw) = ''!ROUTINE:''"
    by (auto simp: marker_field_def Let_def split: if_splits)
  have "process_line tk op fb raw st =
     the (prologue_rules op fb (lstrip (rstrip_nl raw)) (line_fields raw)
            (marker_index (line_fields raw)) st)"
    using assms by (intro process_line_prologue_rules [where m = "''!ROUTINE:''"]) simp_all
  with m assms(4) have "process_line tk op fb raw st =
     ((if opt_n op \<and> not_first st then [newpage] else [])
      @ [if \<not> opt_f op
         then bslash # ''subsubsection{'' @ escape_underscores (join_sp (remainder_fields raw))
                @ '' (Source File: '' @ fb @ '')}'' @ [newline]
         else bslash # ''subsubsection{'' @ escape_underscores (join_sp (remainder_fields raw))
                @ ''}'' @ [newline]],
      st\<lparr>have_name := True, not_first := True\<rparr>)"
    by (simp add: prologue_rules_def Let_def pop_marker_drop remainder_fields_def)
  moreover have "\<not> not_first init_state"
    by (simp add: init_state_def)
  ultimately show ?thesis
    using process_line_not_first [OF assms(1), of op fb raw' st']
      process_file_not_first [OF assms(1), of st'' now f filename op]
    by simp
qed

theorem routine_page_break_witness:
  "marker_field ''!ROUTINE: my_func'' = Some ''!ROUTINE:'' \<and>
   \<not> intro_data_line (default_opts\<lparr>opt_n := True\<rparr>) ''!ROUTINE: my_func''
       (init_state\<lparr>prologue := True, not_first := True\<rparr>) \<and>
   prologue (init_state\<lparr>prologue := True, not_first := True\<rparr>) \<and>
   process_line (language_tokens Fortran) (default_opts\<lparr>opt_n := True\<rparr>) ''a.f90''
     ''!ROUTINE: my_func'' (init_state\<lparr>prologue := True, not_first := True\<rparr>)
   = ([newpage,
       bslash # ''subsubsection{my'' @ bslash # ''_func (Source File: a.f90)}'' @ [newline]],
      init_state\<lparr>prologue := True, not_first := True, have_name := True\<rparr>) \<and>
   not_first (snd (process_line (language_tokens Fortran) (default_opts\<lparr>opt_n := True\<rparr>)
     ''a.f90'' ''!MODULE: m'' (init_state\<lparr>prologue := True\<rparr>))) \<and>
   not_first (snd (process_file ''2026-11-06 10:00:00'' [''!BOP'', ''!EOP''] ''b.f90''
     (init_state\<lparr>not_first := True\<rparr>) (language_tokens Fortran)
     (default_opts\<lparr>opt_n := True\<rparr>)))"
proof -
  let ?op = "default_opts\<lparr>opt_n := True\<rparr>"
  let ?st = "init_state\<lparr>prologue := True, not_first := True\<rparr>"
  have m: "marker_field ''!ROUTINE: my_func'' = Some ''!ROUTINE:''"
    and r: "remainder_fields ''!ROUTINE: my_func'' = [''my_func'']"
    and m': "marker_field ''!MODULE: m'' = Some ''!MODULE:''"
    by (simp_all add: line_defs)
  have i: "\<not> intro_data_line ?op ''!ROUTINE: my_func'' ?st"
    and i': "\<not> intro_data_line ?op ''!MODULE: m'' (init_state\<lparr>prologue := True\<rparr>)"
    by (simp_all add: intro_data_line_def intro_fields_def init_state_def)
  have p: "prologue ?st" by simp
  show ?thesis
    using routine_page_break [where lg = Fortran and fb = "''a.f90''"
        and raw' = "''!MODULE: m''" and st' = "init_state\<lparr>prologue := True\<rparr>"
        and st'' = "init_state\<lparr>not_first := True\<rparr>" and now = "''2026-11-06 10:00:00''"
        and f = "[''!BOP'', ''!EOP'']" and filename = "''b.f90''", OF refl m i p] m i m' i'
    by (simp add: r escape_underscores_def default_opts_def init_state_def)
qed

text \<open>
  Claim C7 as stated fails at the second file of a run: with the new-page option on (and
  bare mode, which keeps the document header out of the output), the first routine of
  \<^verbatim>\<open>b.f90\<close> is preceded by a page break, because \<^verbatim>\<open>a.f90\<close> had a routine.
\<close>

theorem first_routine_of_second_file_counterexample:
  "main (\<lambda>k. ''2026-11-06 10:00:00'')
     (map_of [(''a.f90'', [''!BOP'', ''!ROUTINE: f'']),
              (''b.f90'', [''!BOP'', ''!ROUTINE: g''])])
     []
     (default_opts\<lparr>opt_files := [''a.f90'', ''b.f90''], opt_n := True, opt_bare := True\<rparr>)
   = (print_notice @ print_macros @
      [markboth ''a.f90'' ''2026-11-06 10:00:00'',
       separator,
       bslash # ''subsubsection{f (Source File: a.f90)}'' @ [newline],
       '''', eof_separator,
       markboth ''b.f90'' ''2026-11-06 10:00:00'',
       separator, hrule,
       newpage,
       bslash # ''subsubsection{g (Source File: b.f90)}'' @ [newline],
       '''', eof_separator],
      None)"
  by (simp add: main_def select_lang_def process_file_def file_basename_def basename_def process_line_def
      line_defs rule_defs init_state_def default_opts_def default_keys_def)

subsection \<open>Internal routine name markers\<close>

text \<open>
  With fewer than two fields after the marker, \<^verbatim>\<open>routine_name.split()\<close> has at most
  one word: the one field is among the first 9999 of the line and so holds no whitespace,
  and escaping its underscores adds none.
\<close>

lemma short_remainder_words:
  assumes "length (remainder_fields raw) < 2"
  shows "length (split_all (escape_underscores (join_sp (remainder_fields raw)))) \<le> 1"
proof (cases "remainder_fields raw")
  case Nil
  then show ?thesis by (simp add: escape_underscores_def split_all_Nil)
next
  case (Cons w ws)
  with assms have ws: "ws = []" by simp
  define flds where "flds = line_fields raw"
  define k where "k = marker_index flds + 1"
  from Cons ws have d: "drop k flds = [w]"
    by (simp add: remainder_fields_def Let_def flds_def k_def)
  then have len: "k < length flds"
    by (cases "k < length flds") simp_all
  from d len have w: "w = flds ! k"
    using hd_drop_conv_nth [of k flds] by simp
  have "k < 9999" using marker_index_le_1 [of flds] by (simp add: k_def)
  with len have "\<forall>c \<in> set (flds ! k). \<not> is_space c"
    unfolding flds_def line_fields_def by (intro split_ws_field_no_space)
  with w have "\<forall>c \<in> set (escape_underscores w). \<not> is_space c"
    by (simp add: escape_underscores_no_space)
  then have "split_all (escape_underscores w)
      = (if escape_underscores w = [] then [] else [escape_underscores w])"
    by (rule split_all_no_space)
  with Cons ws show ?thesis by simp
qed

text \<open>
  Claim C9. At a line that the \<^verbatim>\<open>!IROUTINE:\<close> rule takes in prologue mode and that
  has fewer than two fields after the marker, the one line printed is the sub-subsection
  heading with nothing between the square brackets and, between the braces, the fields
  after the marker joined by blanks, with their underscores escaped for LaTeX as in every
  heading; a blank line follows it.
\<close>

theorem internal_routine_empty_label:
  assumes "tk = language_tokens lg"
    and "marker_field raw = Some ''!IROUTINE:''" and "\<not> intro_data_line op raw st"
    and "prologue st"
    and "length (remainder_fields raw) < 2"
  shows "process_line tk op fb raw st =
     ([bslash # ''subsubsection []{'' @ escape_underscores (join_sp (remainder_fields raw))
         @ ''}'' @ [newline]],
      st\<lparr>have_name := True\<rparr>)"
proof -
  from assms(2) have m: "line_fields raw ! marker_index (line_fields raw) = ''!IROUTINE:''"
    by (auto simp: marker_field_def Let_def split: if_splits)
  have "process_line tk op fb raw st =
     the (prologue_rules op fb (lstrip (rstrip_nl raw)) (line_fields raw)
            (marker_index (line_fields raw)) st)"
    using assms by (intro process_line_prologue_rules [where m = "''!IROUTINE:''"]) simp_all
  moreover have "drop (Suc (marker_index (line_fields raw))) (line_fields raw)
      = remainder_fields raw"
    by (simp add: remainder_fields_def Let_def)
  ultimately show ?thesis
    using m assms(4) short_remainder_words [OF assms(5)]
    by (simp add: prologue_rules_def Let_def pop_marker_drop)
qed

theorem internal_routine_empty_label_witness:
  "marker_field ''! !IROUTINE: get_x'' = Some ''!IROUTINE:'' \<and>
   \<not> intro_data_line default_opts ''! !IROUTINE: get_x'' (init_state\<lparr>prologue := True\<rparr>) \<and>
   prologue (init_state\<lparr>prologue := True\<rparr>) \<and>
   length (remainder_fields ''! !IROUTINE: get_x'') < 2 \<and>
   process_line (language_tokens Fortran) default_opts ''a.f90'' ''! !IROUTINE: get_x''
     (init_state\<lparr>prologue := True\<rparr>)
   = ([bslash # ''subsubsection []{get'' @ bslash # ''_x}'' @ [newline]],
      init_state\<lparr>prologue := True, have_name := True\<rparr>)"
proof -
  have m: "marker_field ''! !IROUTINE: get_x'' = Some ''!IROUTINE:''"
    and r: "remainder_fields ''! !IROUTINE: get_x'' = [''get_x'']"
    by (simp_all add: line_defs)
  have i: "\<not> intro_data_line default_opts ''! !IROUTINE: get_x'' (init_state\<lparr>prologue := True\<rparr>)"
    by (simp add: intro_data_line_def intro_fields_def init_state_def)
  have p: "prologue (init_state\<lparr>prologue := True\<rparr>)" by simp
  have l: "length (remainder_fields ''! !IROUTINE: get_x'') < 2" by (simp add: r)
  show ?thesis
    using internal_routine_empty_label [where lg = Fortran and fb = "''a.f90''", OF refl m i p l]
      m i l
    by (simp add: r escape_underscores_def)
qed

subsection \<open>The end of a file\<close>

lemma eof_close:
  "(if source st then do_eoc st else ([], st)) =
     ((if source st \<and> verb st then [end_verbatim] else []),
      st\<lparr>verb := verb st \<and> \<not> source st, source := False\<rparr>)"
  by (cases st) (simp add: do_eoc_def)

text \<open>\<^const>\<open>process_file\<close> with its end written out.\<close>

lemma process_file_eq:
  "process_file now f filename st tk op =
     (markboth (file_basename filename) now
        # fst (process_lines tk op (file_basename filename) f st)
        @ ['''']
        @ (if source (snd (process_lines tk op (file_basename filename) f st))
              \<and> verb (snd (process_lines tk op (file_basename filename) f st))
           then [end_verbatim] else [])
        @ [eof_separator],
      (snd (process_lines tk op (file_basename filename) f st))
        \<lparr>verb := verb (snd (process_lines tk op (file_basename filename) f st))
                   \<and> \<not> source (snd (process_lines tk op (file_basename filename) f st)),
         source := False\<rparr>)"
  unfolding process_file_def Let_def
  by (simp add: split_beta eof_close)

lemma output_lines_append: "output_lines (xs @ ys) = output_lines xs @ output_lines ys"
  by (simp add: output_lines_def)

text \<open>
  Claim C1, as the code has it. After the last line of a file \<^verbatim>\<open>process_file\<close> prints
  an empty line, then closes the block only if a code block is open (the flag
  \<^verbatim>\<open>source\<close>): \<^verbatim>\<open>\end{verbatim}\<close> is printed exactly when \<^verbatim>\<open>source\<close> and
  \<^verbatim>\<open>verb\<close> are both set, and both flags are cleared; then it prints the closing
  comment line. No \<^verbatim>\<open>\begin{verbatim}\<close> is printed there. A verbatim block that is
  open while \<^verbatim>\<open>source\<close> is unset, as after a prologue keyword section with no closing
  marker, is left open: nothing is printed for it and \<^verbatim>\<open>verb\<close> stays set.
\<close>

theorem end_of_file_close_out:
  fixes now f filename st tk op
  defines "body \<equiv> fst (process_lines tk op (file_basename filename) f st)"
  defines "st1 \<equiv> snd (process_lines tk op (file_basename filename) f st)"
  defines "closing \<equiv>
     [''''] @ (if source st1 \<and> verb st1 then [end_verbatim] else []) @ [eof_separator]"
  shows "process_file now f filename st tk op =
     (markboth (file_basename filename) now # body @ closing,
      st1\<lparr>verb := verb st1 \<and> \<not> source st1, source := False\<rparr>)
   \<and> count_list (output_lines closing) end_verbatim = (if source st1 \<and> verb st1 then 1 else 0)
   \<and> count_list (output_lines closing) begin_verbatim = 0"
proof -
  have "process_file now f filename st tk op =
     (markboth (file_basename filename) now # body @ closing,
      st1\<lparr>verb := verb st1 \<and> \<not> source st1, source := False\<rparr>)"
    by (simp add: process_file_eq body_def st1_def closing_def)
  moreover have "count_list (output_lines closing) end_verbatim
      = (if source st1 \<and> verb st1 then 1 else 0)"
    by (simp add: closing_def output_lines_def end_verbatim_def eof_separator_def)
  moreover have "count_list (output_lines closing) begin_verbatim = 0"
    by (simp add: closing_def output_lines_def end_verbatim_def begin_verbatim_def
        eof_separator_def)
  ultimately show ?thesis by simp
qed

text \<open>
  Claim C1 as stated fails on a file that ends inside a keyword section: the output has
  one \<^verbatim>\<open>\begin{verbatim}\<close> line and no \<^verbatim>\<open>\end{verbatim}\<close> line.
\<close>

theorem keyword_section_left_open_counterexample:
  "count_list (output_lines (fst (process_file ''2026-11-06 10:00:00''
       [''!BOP'', ''!INTERFACE:''] ''a.f90'' init_state (language_tokens Fortran) default_opts)))
     begin_verbatim = 1 \<and>
   count_list (output_lines (fst (process_file ''2026-11-06 10:00:00''
       [''!BOP'', ''!INTERFACE:''] ''a.f90'' init_state (language_tokens Fortran) default_opts)))
     end_verbatim = 0"
proof -
  have "fst (process_file ''2026-11-06 10:00:00'' [''!BOP'', ''!INTERFACE:''] ''a.f90''
          init_state (language_tokens Fortran) default_opts)
      = [markboth ''a.f90'' ''2026-11-06 10:00:00'', separator, bslash # ''begin{document}'',
         bslash # ''tableofcontents'', newpage, prologue_banner, newline # bslash # ''bigskip'',
         ''{'' @ bslash # ''sf INTERFACE:}'', begin_verbatim, '''', eof_separator]"
    by (simp add: process_file_def file_basename_def basename_def process_line_def line_defs rule_defs
        init_state_def default_opts_def default_keys_def)
  then show ?thesis
    by (simp add: output_lines_def markboth_def separator_def newpage_def prologue_banner_def
        begin_verbatim_def end_verbatim_def eof_separator_def)
qed

subsection \<open>The emphasis of a keyword label\<close>

text \<open>
  Claim C2, on the code. In a prologue the line \<^verbatim>\<open>!INTERFACE: see OUTPUT below\<close> matches the
  key \<^verbatim>\<open>!INTERFACE:\<close>, whose text holds none of the six words; yet the label is printed
  with \<^verbatim>\<open>\em\<close>, because line 433 looks for the words in the whole line. With other
  text after the same key the label is printed with \<^verbatim>\<open>\sf\<close>.
\<close>

theorem keyword_style_reads_line:
  "find (\<lambda>key. str_in key ''!INTERFACE: see OUTPUT below'') default_keys = Some ''!INTERFACE:'' \<and>
   \<not> list_ex (\<lambda>x. str_in x ''!INTERFACE:'') argument_words \<and>
   fst (process_file ''2026-11-06 10:00:00'' [''!BOP'', ''!INTERFACE: see OUTPUT below''] ''a.f90''
          init_state (language_tokens Fortran) (default_opts\<lparr>opt_bare := True\<rparr>))
   = [markboth ''a.f90'' ''2026-11-06 10:00:00'', separator,
      newline # bslash # ''bigskip'', ''{'' @ bslash # ''em INTERFACE:}'', begin_verbatim,
      '''', eof_separator] \<and>
   fst (process_file ''2026-11-06 10:00:00'' [''!BOP'', ''!INTERFACE: see below''] ''a.f90''
          init_state (language_tokens Fortran) (default_opts\<lparr>opt_bare := True\<rparr>))
   = [markboth ''a.f90'' ''2026-11-06 10:00:00'', separator,
      newline # bslash # ''bigskip'', ''{'' @ bslash # ''sf INTERFACE:}'', begin_verbatim,
      '''', eof_separator]"
proof -
  have key: "find (\<lambda>key. str_in key ''!INTERFACE: see OUTPUT below'') default_keys = Some ''!INTERFACE:''"
    by (simp add: default_keys_def startswith_def)
  have words: "\<not> list_ex (\<lambda>x. str_in x ''!INTERFACE:'') argument_words"
    by (simp add: argument_words_def startswith_def)
  have em: "fst (process_file ''2026-11-06 10:00:00'' [''!BOP'', ''!INTERFACE: see OUTPUT below'']
          ''a.f90'' init_state (language_tokens Fortran) (default_opts\<lparr>opt_bare := True\<rparr>))
      = [markboth ''a.f90'' ''2026-11-06 10:00:00'', separator,
         newline # bslash # ''bigskip'', ''{'' @ bslash # ''em INTERFACE:}'', begin_verbatim,
         '''', eof_separator]"
    by (simp add: process_file_def file_basename_def basename_def process_line_def line_defs
        rule_defs init_state_def default_opts_def default_keys_def)
  have sf: "fst (process_file ''2026-11-06 10:00:00'' [''!BOP'', ''!INTERFACE: see below'']
          ''a.f90'' init_state (language_tokens Fortran) (default_opts\<lparr>opt_bare := True\<rparr>))
      = [markboth ''a.f90'' ''2026-11-06 10:00:00'', separator,
         newline # bslash # ''bigskip'', ''{'' @ bslash # ''sf INTERFACE:}'', begin_verbatim,
         '''', eof_separator]"
    by (simp add: process_file_def file_basename_def basename_def process_line_def line_defs
        rule_defs init_state_def default_opts_def default_keys_def)
  from key words em sf show ?thesis by (simp only: simp_thms)
qed

subsection \<open>The shut-up flag\<close>

text \<open>
  Claim C3, on the code. A run with the shut-up flag set on a file that holds one code
  block prints the line of the block between \<^verbatim>\<open>\begin{verbatim}\<close> and
  \<^verbatim>\<open>\end{verbatim}\<close>: no rule of \<^verbatim>\<open>process_file\<close> reads the flag.
\<close>

theorem shut_up_flag_not_read:
  "main (\<lambda>k. ''2026-11-06 10:00:00'') (map_of [(''a.f90'', [''!BOC'', ''x = 1'', ''!EOC''])]) []
     (default_opts\<lparr>opt_files := [''a.f90''], opt_s := True, opt_bare := True\<rparr>)
   = (print_notice @ print_macros @
      [markboth ''a.f90'' ''2026-11-06 10:00:00'',
       separator, newline # begin_verbatim,
       ''x = 1'',
       end_verbatim,
       '''', eof_separator],
      None)"
  by (simp add: main_def select_lang_def process_file_def file_basename_def basename_def
      process_line_def line_defs rule_defs init_state_def default_opts_def default_keys_def)

subsection \<open>The listing flag\<close>

lemma intro_fields_opt_l:
  "intro_fields (op\<lparr>opt_l := b\<rparr>) flds mi st = intro_fields op flds mi st"
  by (simp add: intro_fields_def cong: if_cong)

lemma bop_rule_opt_l: "bop_rule (op\<lparr>opt_l := b\<rparr>) st = bop_rule op st"
  by (simp add: bop_rule_eq)

lemma bopi_rule_opt_l: "bopi_rule (op\<lparr>opt_l := b\<rparr>) st = bopi_rule op st"
  by (simp add: bopi_rule_eq bop_rule_opt_l)

lemma keyword_section_opt_l:
  "keyword_section (op\<lparr>opt_l := b\<rparr>) line st = keyword_section op line st"
  by (simp add: keyword_section_def)

lemma description_rule_opt_l:
  "description_rule (op\<lparr>opt_l := b\<rparr>) line st = description_rule op line st"
  by (simp add: description_rule_def cong: if_cong)

lemma prologue_rules_opt_l:
  "prologue_rules (op\<lparr>opt_l := b\<rparr>) fb line flds mi st = prologue_rules op fb line flds mi st"
  by (simp add: prologue_rules_def keyword_section_opt_l description_rule_opt_l cong: if_cong)

lemma process_line_opt_l: "process_line tk (op\<lparr>opt_l := b\<rparr>) fb raw st = process_line tk op fb raw st"
  by (simp add: process_line_def intro_fields_opt_l bop_rule_opt_l bopi_rule_opt_l
      prologue_rules_opt_l cong: if_cong option.case_cong)

lemma process_lines_opt_l:
  "process_lines tk (op\<lparr>opt_l := b\<rparr>) fb f st = process_lines tk op fb f st"
  by (induction f arbitrary: st) (simp_all add: process_line_opt_l)

lemma process_file_opt_l:
  "process_file now f filename st tk (op\<lparr>opt_l := b\<rparr>) = process_file now f filename st tk op"
  by (simp add: process_file_def process_lines_opt_l)

lemma process_files_opt_l:
  "process_files clock fsys tk (op\<lparr>opt_l := b\<rparr>) k files stdin st
     = process_files clock fsys tk op k files stdin st"
proof (induction files arbitrary: k stdin st)
  case Nil
  then show ?case by simp
next
  case (Cons filename rest)
  show ?case
    unfolding process_files.simps process_file_opt_l Cons.IH by (rule refl)
qed

lemma main_opt_l: "main clock fsys stdin (op\<lparr>opt_l := b\<rparr>) = main clock fsys stdin op"
  by (simp add: main_def select_lang_def process_files_opt_l)

text \<open>
  Claim C10. The listing flag changes nothing: a whole run, and each call of
  \<^verbatim>\<open>process_file\<close>, gives the same output (and the same state and error) with the flag
  on as with the flag off, whatever the files, the clock and the other options are.
\<close>

theorem listing_flag_ignored:
  "main clock fsys stdin (op\<lparr>opt_l := True\<rparr>) = main clock fsys stdin (op\<lparr>opt_l := False\<rparr>) \<and>
   process_file now f filename st tk (op\<lparr>opt_l := True\<rparr>)
     = process_file now f filename st tk (op\<lparr>opt_l := False\<rparr>)"
  by (simp add: main_opt_l process_file_opt_l)

subsection \<open>The time stamp\<close>

text \<open>
  The time read by \<^verbatim>\<open>process_file\<close> goes into its first \<^verbatim>\<open>print\<close> and nowhere
  else.
\<close>

lemma process_file_now:
  "process_file now f filename st tk op =
     (markboth (file_basename filename) now # tl (fst (process_file now' f filename st tk op)),
      snd (process_file now' f filename st tk op))"
  by (simp add: process_file_eq)

lemma list_all2_same_or: "list_all2 (\<lambda>a b. a = b \<or> Q a b) xs xs"
  by (simp add: list_all2_same)

lemma process_files_clock:
  "list_all2 (\<lambda>a b. a = b \<or> (\<exists>fb d d'. a = markboth fb d \<and> b = markboth fb d'))
     (fst (process_files clock fsys tk op k files stdin st))
     (fst (process_files clock' fsys tk op k files stdin st))
   \<and> snd (process_files clock fsys tk op k files stdin st)
     = snd (process_files clock' fsys tk op k files stdin st)"
proof (induction files arbitrary: k stdin st)
  case Nil
  then show ?case by simp
next
  case (Cons filename rest)
  let ?R = "\<lambda>a b. a = b \<or> (\<exists>fb d d'. a = markboth fb d \<and> b = markboth fb d')"
  have step: "list_all2 ?R (fst (process_file (clock k) f filename st tk op))
                (fst (process_file (clock' k) f filename st tk op))
      \<and> snd (process_file (clock k) f filename st tk op)
        = snd (process_file (clock' k) f filename st tk op)" for f
  proof -
    have "?R (markboth (file_basename filename) (clock k))
            (markboth (file_basename filename) (clock' k))"
      by blast
    then show ?thesis
      by (simp add: process_file_eq list_all2_same_or)
  qed
  show ?case
  proof (cases "filename = ''-'' \<or> filename = ''''")
    case True
    with step [of stdin] Cons.IH [of "Suc k" "[]" "snd (process_file (clock' k) stdin filename st tk op)"]
    show ?thesis
      by (simp add: split_beta list_all2_appendI)
  next
    case False
    show ?thesis
    proof (cases "fsys filename")
      case None
      with False show ?thesis by simp
    next
      case (Some f)
      with False step [of f]
        Cons.IH [of "Suc k" stdin "snd (process_file (clock' k) f filename st tk op)"]
      show ?thesis
        by (simp add: split_beta list_all2_appendI)
    qed
  qed
qed

text \<open>
  Claim C8. Two runs on the same files, the same standard input and the same options,
  whatever the clocks say: line by line the outputs are equal or are the banners of the
  same file with two time stamps, and the runs end with the same error or with none. For
  one call of \<^verbatim>\<open>process_file\<close>: the banner is its first \<^verbatim>\<open>print\<close>, and every
  later one and the state returned are those of the call with any other time.
\<close>

theorem output_deterministic_up_to_timestamp:
  "list_all2 (\<lambda>a b. a = b \<or> (\<exists>fb d d'. a = markboth fb d \<and> b = markboth fb d'))
     (fst (main clock fsys stdin op)) (fst (main clock' fsys stdin op))
   \<and> snd (main clock fsys stdin op) = snd (main clock' fsys stdin op)
   \<and> process_file now f filename st tk op =
       (markboth (file_basename filename) now # tl (fst (process_file now' f filename st tk op)),
        snd (process_file now' f filename st tk op))"
proof -
  let ?R = "\<lambda>a b. a = b \<or> (\<exists>fb d d'. a = markboth fb d \<and> b = markboth fb d')"
  let ?files = "if opt_files op \<noteq> [] then opt_files op else [''-'']"
  let ?tk = "language_tokens (select_lang op)"
  from process_files_clock [of clock fsys ?tk op 0 ?files stdin init_state clock']
  have body: "list_all2 ?R (fst (process_files clock fsys ?tk op 0 ?files stdin init_state))
                (fst (process_files clock' fsys ?tk op 0 ?files stdin init_state))"
    and err: "snd (process_files clock fsys ?tk op 0 ?files stdin init_state)
                = snd (process_files clock' fsys ?tk op 0 ?files stdin init_state)"
    by simp_all
  have "list_all2 ?R (fst (main clock fsys stdin op)) (fst (main clock' fsys stdin op))"
    unfolding main_def Let_def split_beta fst_conv err
    by (intro list_all2_appendI body list_all2_same_or)
  moreover have "snd (main clock fsys stdin op) = snd (main clock' fsys stdin op)"
    by (simp add: main_def Let_def split_beta err)
  ultimately show ?thesis
    using process_file_now [of now f filename st tk op now'] by simp
qed

end
